theory Spec2Isabelle
  imports Main
begin

section \<open>The base-62 codec (server/internal/shortid/generator.go)\<close>

text \<open>
  Go strings are byte sequences: a \<^typ>\<open>string\<close> here is the list of the bytes of the Go
  string. The value of Go's \<open>int64\<close> is an \<^typ>\<open>int\<close>; where the source's arithmetic can
  leave the 64-bit range the wrap-around is written out with \<open>int64\<close> below.
\<close>

definition base62Chars :: string where
  "base62Chars = ''0123456789ABCDEFGHIJKLMNOPQRSTUVWXYZabcdefghijklmnopqrstuvwxyz''"

text \<open>\<open>NewGenerator\<close> is the only constructor and sets \<open>base\<close> to \<open>len(base62Chars)\<close>.\<close>

definition base :: int where
  "base = int (length base62Chars)"

text \<open>A run-time panic of the Go program: an index expression out of range.\<close>

datatype panic = IndexOutOfRange

text \<open>
  The digit loop of \<open>Encode\<close>: \<open>for number > 0\<close>, the remainder's symbol is appended to
  the builder and the number divided by the base. Both operands are positive where \<open>%\<close> and
  \<open>/\<close> are evaluated, so Go's truncating operators agree with \<open>mod\<close> and \<open>div\<close>.
\<close>

function encode_digits :: "int \<Rightarrow> string \<Rightarrow> string" where
  "encode_digits number results =
     (if number > 0
      then encode_digits (number div base) (results @ [base62Chars ! nat (number mod base)])
      else results)"
  by pat_completeness auto
termination
  by (relation "measure (\<lambda>(number, results). nat number)")
     (auto simp: base_def base62Chars_def)

text \<open>
  The loop that is meant to reverse the digits:
  \<^verbatim>\<open>for i, j := 0, len(runes)-1; i < j; i, j = i+1, j+1 { runes[i], runes[j] = runes[j], runes[i] }\<close>
  Both indices go up. An index outside the slice panics.
\<close>

function reverse_loop :: "char list \<Rightarrow> int \<Rightarrow> int \<Rightarrow> panic + char list" where
  "reverse_loop runes i j =
     (if i < j
      then (if 0 \<le> i \<and> i < int (length runes) \<and> 0 \<le> j \<and> j < int (length runes)
            then reverse_loop (runes[nat i := runes ! nat j, nat j := runes ! nat i]) (i + 1) (j + 1)
            else Inl IndexOutOfRange)
      else Inr runes)"
  by pat_completeness auto
termination
  by (relation "measure (\<lambda>(runes, i, j). nat (int (length runes) - j))") auto

definition Encode :: "int \<Rightarrow> panic + string" where
  "Encode number =
     (if number = 0 then Inr [base62Chars ! 0]
      else (let encoded = encode_digits number [] in
            reverse_loop encoded 0 (int (length encoded) - 1)))"

text \<open>\<open>strings.IndexRune\<close> on a byte of the string: the index of its first occurrence, or -1.\<close>

fun index_from :: "string \<Rightarrow> char \<Rightarrow> int \<Rightarrow> int" where
  "index_from [] c i = -1"
| "index_from (x # xs) c i = (if x = c then i else index_from xs c (i + 1))"

definition IndexRune :: "string \<Rightarrow> char \<Rightarrow> int" where
  "IndexRune s c = index_from s c 0"

text \<open>The value of a Go \<open>int64\<close> after an operation whose exact result is \<open>x\<close>.\<close>

definition int64 :: "int \<Rightarrow> int" where
  "int64 x = (x + 2 ^ 63) mod 2 ^ 64 - 2 ^ 63"

text \<open>
  \<open>int64(math.Pow(float64(g.base), float64(power)))\<close>. For \<open>power \<le> 10\<close> the power
  \<open>62 ^ power = 2 ^ power * 31 ^ power\<close> has an odd part below \<open>2 ^ 53\<close>, is a value of
  \<open>float64\<close> and is below \<open>2 ^ 63\<close>, so the conversion returns it. From \<open>power = 11\<close> on
  the float is beyond the range of \<open>int64\<close> and Go leaves the converted value to the
  implementation: it is the parameter \<open>conv\<close>.
\<close>

definition pow_int64 :: "(nat \<Rightarrow> int) \<Rightarrow> nat \<Rightarrow> int" where
  "pow_int64 conv pwr = (if pwr \<le> 10 then base ^ pwr else int64 (conv pwr))"

text \<open>
  The loop of \<open>Decode\<close>, \<open>for i, char := range encoded\<close>, with \<open>number\<close> the accumulator.
  The power \<open>len(encoded) - i - 1\<close> is the number of bytes after position \<open>i\<close>. Every
  symbol of the alphabet is one byte, and a byte of a longer or broken UTF-8 sequence is not
  in the alphabet, so the first rune outside the alphabet is met at the first byte outside
  it and the loop returns -1 there.
\<close>

fun decode_loop :: "(nat \<Rightarrow> int) \<Rightarrow> int \<Rightarrow> string \<Rightarrow> int" where
  "decode_loop conv number [] = number"
| "decode_loop conv number (char # rest) =
     (let pwr = length rest;
          index = IndexRune base62Chars char
      in if index = -1 then -1
         else decode_loop conv (int64 (number + int64 (index * pow_int64 conv pwr))) rest)"

definition Decode :: "(nat \<Rightarrow> int) \<Rightarrow> string \<Rightarrow> int" where
  "Decode conv encoded = decode_loop conv 0 encoded"

text \<open>The conversion of an out-of-range float on amd64: the smallest \<open>int64\<close>.\<close>

definition conv_amd64 :: "nat \<Rightarrow> int" where
  "conv_amd64 pwr = - (2 ^ 63)"

text \<open>
  The round trip of \<open>TestGenerator_EncodeDecodeRoundTrip\<close>:
  \<^verbatim>\<open>encoded := g.Encode(num); decoded := g.Decode(encoded)\<close>. A panic of \<open>Encode\<close> ends it.
\<close>

definition round_trip :: "(nat \<Rightarrow> int) \<Rightarrow> int \<Rightarrow> panic + int" where
  "round_trip conv num =
     (case Encode num of Inl p \<Rightarrow> Inl p | Inr encoded \<Rightarrow> Inr (Decode conv encoded))"

subsection \<open>The codec as the specification words it\<close>

text \<open>
  The specification's encoding: take the value modulo 62, map the remainder to its symbol,
  divide by 62, stop at zero; the digits are emitted most significant first, and zero is the
  single digit \<open>0\<close>.
\<close>

function spec_digits :: "nat \<Rightarrow> string" where
  "spec_digits n = (if n = 0 then [] else spec_digits (n div 62) @ [base62Chars ! (n mod 62)])"
  by pat_completeness auto
termination
  by (relation "measure id") auto

definition spec_encode :: "nat \<Rightarrow> string" where
  "spec_encode n = (if n = 0 then ''0'' else spec_digits n)"

text \<open>
  The specification's decoding of a string of alphabet symbols: each symbol's index,
  weighted by the power of 62 of its position from the least significant end.
\<close>

fun positional_value :: "string \<Rightarrow> int" where
  "positional_value [] = 0"
| "positional_value (c # rest) =
     IndexRune base62Chars c * 62 ^ length rest + positional_value rest"

section \<open>The validators (pkg/validator)\<close>

definition MinShortCodeLength :: nat where
  "MinShortCodeLength = 1"

definition MaxShortCodeLength :: nat where
  "MaxShortCodeLength = 10"

text \<open>
  \<open>validShortCodeRegex\<close> is \<^verbatim>\<open>^[0-9A-Za-z]+$\<close>. Without flags, \<open>^\<close> and \<open>$\<close> of Go's
  \<open>regexp\<close> match at the two ends of the text only, so \<open>MatchString\<close> holds of the
  non-empty strings all of whose bytes are in the three ranges of the class (the bytes of
  a rune beyond ASCII are all above 127).
\<close>

definition alnum :: "char \<Rightarrow> bool" where
  "alnum c = (let n = (of_char c :: nat)
              in (48 \<le> n \<and> n \<le> 57) \<or> (65 \<le> n \<and> n \<le> 90) \<or> (97 \<le> n \<and> n \<le> 122))"

definition validShortCodeRegex_MatchString :: "string \<Rightarrow> bool" where
  "validShortCodeRegex_MatchString s = (s \<noteq> [] \<and> list_all alnum s)"

definition IsValidShortCode :: "string \<Rightarrow> bool" where
  "IsValidShortCode shortCode =
     (if shortCode = [] then False
      else if length shortCode < MinShortCodeLength \<or> length shortCode > MaxShortCodeLength
      then False
      else validShortCodeRegex_MatchString shortCode)"

text \<open>
  The functions of Go's standard library that the repository calls and that are not part
  of it are parameters: \<open>strings.TrimSpace\<close>; \<open>url.Parse\<close>, as the \<open>Host\<close> of the
  parsed URL or \<open>None\<close> for a parse error; \<open>json.Marshal\<close> and \<open>json.Unmarshal\<close> on a
  URL record, with \<open>None\<close> for an error.
\<close>

record URL =
  ID :: int
  ShortCode :: string
  LongURL :: string
  CreatedAt :: nat
  Clicks :: int

record go_lib =
  TrimSpace :: "string \<Rightarrow> string"
  url_Parse :: "string \<Rightarrow> string option"
  json_Marshal :: "URL \<Rightarrow> string option"
  json_Unmarshal :: "string \<Rightarrow> URL option"

definition HasPrefix :: "string \<Rightarrow> string \<Rightarrow> bool" where
  "HasPrefix s pre = (take (length pre) s = pre)"

definition IsValidURL :: "go_lib \<Rightarrow> string \<Rightarrow> bool" where
  "IsValidURL lib rawURL =
     (if rawURL = [] then False
      else if \<not> HasPrefix rawURL ''http://'' \<and> \<not> HasPrefix rawURL ''https://'' then False
      else (case url_Parse lib rawURL of
              None \<Rightarrow> False
            | Some host \<Rightarrow> if host = [] then False else True))"

definition NormalizeURL :: "go_lib \<Rightarrow> string \<Rightarrow> string" where
  "NormalizeURL lib rawURL =
     (let rawURL = TrimSpace lib rawURL
      in if \<not> HasPrefix rawURL ''http://'' \<and> \<not> HasPrefix rawURL ''https://''
         then ''https://'' @ rawURL
         else rawURL)"

section \<open>The repositories (internal/repo)\<close>

text \<open>
  An error of a driver (pgx, go-redis) or of \<open>encoding/json\<close>, as the repositories tell
  them apart: a \<open>*pgconn.PgError\<close> with its SQLSTATE code, \<open>pgx.ErrNoRows\<close>,
  \<open>redis.Nil\<close>, or any other error with its message.
\<close>

datatype driver_error = PgError string | ErrNoRows | RedisNil | OtherError string

text \<open>
  The errors the repositories return: their three sentinel values, or the driver's error
  as it came.
\<close>

datatype repo_error = ErrNotFound | ErrAlreadyExists | ErrInvalidShortCode | Driver driver_error

text \<open>
  The connection pool, by what each statement of the repository does to the database
  \<open>'db\<close> behind it: the \<open>INSERT ... RETURNING\<close> (short code, long URL, time), the
  \<open>SELECT ... WHERE short_code = $1\<close>, the \<open>UPDATE\<close> with its \<open>RowsAffected\<close>, and
  \<open>nextval\<close> of the sequence.
\<close>

record 'db pgxpool =
  insert_returning :: "string \<Rightarrow> string \<Rightarrow> nat \<Rightarrow> 'db \<Rightarrow> (driver_error + URL) \<times> 'db"
  select_by_code :: "string \<Rightarrow> 'db \<Rightarrow> (driver_error + URL) \<times> 'db"
  update_clicks :: "string \<Rightarrow> 'db \<Rightarrow> (driver_error + nat) \<times> 'db"
  select_nextval :: "'db \<Rightarrow> (driver_error + int) \<times> 'db"

text \<open>\<open>PostgresRepo.Create\<close>; \<open>now\<close> is the value of \<open>time.Now()\<close>.\<close>

definition PostgresRepo_Create ::
  "'db pgxpool \<Rightarrow> nat \<Rightarrow> string \<Rightarrow> string \<Rightarrow> 'db \<Rightarrow> (repo_error + URL) \<times> 'db" where
  "PostgresRepo_Create pool now shortCode longURL db =
     (if \<not> IsValidShortCode shortCode then (Inl ErrInvalidShortCode, db)
      else (case insert_returning pool shortCode longURL now db of
              (Inl err, db') \<Rightarrow>
                (case err of
                   PgError code \<Rightarrow>
                     if code = ''23505'' then (Inl ErrAlreadyExists, db')
                     else (Inl (Driver err), db')
                 | _ \<Rightarrow> (Inl (Driver err), db'))
            | (Inr url, db') \<Rightarrow> (Inr url, db')))"

definition PostgresRepo_GetByShortCode ::
  "'db pgxpool \<Rightarrow> string \<Rightarrow> 'db \<Rightarrow> (repo_error + URL) \<times> 'db" where
  "PostgresRepo_GetByShortCode pool shortCode db =
     (if \<not> IsValidShortCode shortCode then (Inl ErrInvalidShortCode, db)
      else (case select_by_code pool shortCode db of
              (Inl err, db') \<Rightarrow>
                if err = ErrNoRows then (Inl ErrNotFound, db') else (Inl (Driver err), db')
            | (Inr url, db') \<Rightarrow> (Inr url, db')))"

definition PostgresRepo_IncrementClicksCounter ::
  "'db pgxpool \<Rightarrow> string \<Rightarrow> 'db \<Rightarrow> repo_error option \<times> 'db" where
  "PostgresRepo_IncrementClicksCounter pool shortCode db =
     (if \<not> IsValidShortCode shortCode then (Some ErrInvalidShortCode, db)
      else (case update_clicks pool shortCode db of
              (Inl err, db') \<Rightarrow> (Some (Driver err), db')
            | (Inr rowsAffected, db') \<Rightarrow>
                if rowsAffected = 0 then (Some ErrNotFound, db') else (None, db')))"

definition PostgresRepo_GetNextID :: "'db pgxpool \<Rightarrow> 'db \<Rightarrow> (repo_error + int) \<times> 'db" where
  "PostgresRepo_GetNextID pool db =
     (case select_nextval pool db of
        (Inl err, db') \<Rightarrow> (Inl (Driver err), db')
      | (Inr id', db') \<Rightarrow> (Inr id', db'))"

text \<open>
  The Redis client, by what each command does to the cache \<open>'c\<close> behind it: \<open>SET\<close> of a
  key to a value with a time to live, \<open>GET\<close>, \<open>DEL\<close> and \<open>EXISTS\<close> (the number of
  keys found).
\<close>

record 'c redis_client =
  client_Set :: "string \<Rightarrow> string \<Rightarrow> nat \<Rightarrow> 'c \<Rightarrow> driver_error option \<times> 'c"
  client_Get :: "string \<Rightarrow> 'c \<Rightarrow> (driver_error + string) \<times> 'c"
  client_Del :: "string \<Rightarrow> 'c \<Rightarrow> driver_error option \<times> 'c"
  client_Exists :: "string \<Rightarrow> 'c \<Rightarrow> (driver_error + int) \<times> 'c"

record 'c RedisRepo =
  client :: "'c redis_client"
  ttl :: nat

definition RedisRepo_Set ::
  "go_lib \<Rightarrow> 'c RedisRepo \<Rightarrow> string \<Rightarrow> URL \<Rightarrow> 'c \<Rightarrow> repo_error option \<times> 'c" where
  "RedisRepo_Set lib r shortCode url c =
     (if \<not> IsValidShortCode shortCode then (Some ErrInvalidShortCode, c)
      else (case json_Marshal lib url of
              None \<Rightarrow> (Some (Driver (OtherError ''json'')), c)
            | Some data \<Rightarrow>
                (case client_Set (client r) shortCode data (ttl r) c of
                   (None, c') \<Rightarrow> (None, c')
                 | (Some err, c') \<Rightarrow> (Some (Driver err), c'))))"

definition RedisRepo_Get ::
  "go_lib \<Rightarrow> 'c RedisRepo \<Rightarrow> string \<Rightarrow> 'c \<Rightarrow> (repo_error + URL) \<times> 'c" where
  "RedisRepo_Get lib r shortCode c =
     (if \<not> IsValidShortCode shortCode then (Inl ErrInvalidShortCode, c)
      else (case client_Get (client r) shortCode c of
              (Inl err, c') \<Rightarrow>
                if err = RedisNil then (Inl ErrNotFound, c') else (Inl (Driver err), c')
            | (Inr data, c') \<Rightarrow>
                (case json_Unmarshal lib data of
                   None \<Rightarrow> (Inl (Driver (OtherError ''json'')), c')
                 | Some url \<Rightarrow> (Inr url, c'))))"

definition RedisRepo_Delete :: "'c RedisRepo \<Rightarrow> string \<Rightarrow> 'c \<Rightarrow> repo_error option \<times> 'c" where
  "RedisRepo_Delete r shortCode c =
     (if \<not> IsValidShortCode shortCode then (Some ErrInvalidShortCode, c)
      else (case client_Del (client r) shortCode c of
              (None, c') \<Rightarrow> (None, c')
            | (Some err, c') \<Rightarrow> (Some (Driver err), c')))"

text \<open>\<open>Exists\<close> returns a Boolean beside the error: \<open>false\<close> with every error.\<close>

definition RedisRepo_Exists ::
  "'c RedisRepo \<Rightarrow> string \<Rightarrow> 'c \<Rightarrow> (bool \<times> repo_error option) \<times> 'c" where
  "RedisRepo_Exists r shortCode c =
     (if \<not> IsValidShortCode shortCode then ((False, Some ErrInvalidShortCode), c)
      else (case client_Exists (client r) shortCode c of
              (Inl err, c') \<Rightarrow> ((False, Some (Driver err)), c')
            | (Inr result, c') \<Rightarrow> ((result \<noteq> 0, None), c')))"

text \<open>
  A pool and a client over a counter, which every statement and every command they
  receive increases: whatever reaches them leaves a trace.
\<close>

definition counting_pool :: "nat pgxpool" where
  "counting_pool =
     \<lparr>insert_returning = (\<lambda>shortCode longURL now n.
          (Inr \<lparr>ID = int n, ShortCode = shortCode, LongURL = longURL, CreatedAt = now, Clicks = 0\<rparr>,
           Suc n)),
      select_by_code = (\<lambda>shortCode n. (Inl ErrNoRows, Suc n)),
      update_clicks = (\<lambda>shortCode n. (Inr 0, Suc n)),
      select_nextval = (\<lambda>n. (Inr (int n), Suc n))\<rparr>"

definition counting_redis :: "nat RedisRepo" where
  "counting_redis =
     \<lparr>client =
        \<lparr>client_Set = (\<lambda>key data t n. (None, Suc n)),
         client_Get = (\<lambda>key n. (Inl RedisNil, Suc n)),
         client_Del = (\<lambda>key n. (None, Suc n)),
         client_Exists = (\<lambda>key n. (Inr 0, Suc n))\<rparr>,
      ttl = 86400\<rparr>"

section \<open>The shortener service (internal/service)\<close>

record CreateURLResponse =
  resp_ShortCode :: string
  resp_ShortURL :: string
  resp_LongURL :: string

record StatsResponse =
  stats_ShortCode :: string
  stats_LongURL :: string
  stats_Clicks :: int
  stats_CreatedAt :: nat

text \<open>
  The two interfaces the service is built on. An implementation is any four functions on
  a world \<open>'w\<close>, which holds whatever the store and the cache keep; a call returns its
  result and the world after it. A Go method returning \<open>error\<close> alone returns
  \<open>None\<close> for \<open>nil\<close>. With a nil error the record returned is taken to be there.
\<close>

record 'w PostgresRepository =
  pg_Create :: "int \<Rightarrow> string \<Rightarrow> string \<Rightarrow> 'w \<Rightarrow> (repo_error + URL) \<times> 'w"
  pg_GetByShortCode :: "string \<Rightarrow> 'w \<Rightarrow> (repo_error + URL) \<times> 'w"
  pg_IncrementClicksCounter :: "string \<Rightarrow> 'w \<Rightarrow> repo_error option \<times> 'w"
  pg_GetNextID :: "'w \<Rightarrow> (repo_error + int) \<times> 'w"

record 'w RedisRepository =
  redis_Get :: "string \<Rightarrow> 'w \<Rightarrow> (repo_error + URL) \<times> 'w"
  redis_Set :: "string \<Rightarrow> URL \<Rightarrow> 'w \<Rightarrow> repo_error option \<times> 'w"
  redis_Delete :: "string \<Rightarrow> 'w \<Rightarrow> repo_error option \<times> 'w"
  redis_Exists :: "string \<Rightarrow> 'w \<Rightarrow> (bool \<times> repo_error option) \<times> 'w"

text \<open>
  The fields of \<open>ShortenerService\<close> that are fixed at construction; of the channel
  \<open>clickWorkers\<close> that is its capacity.
\<close>

record 'w ShortenerService =
  pgRepo :: "'w PostgresRepository"
  redisRepo :: "'w RedisRepository"
  baseURL :: string
  maxRetries :: int
  clickWorkers_cap :: nat

definition NewShortenerService ::
  "'w PostgresRepository \<Rightarrow> 'w RedisRepository \<Rightarrow> string \<Rightarrow> 'w ShortenerService" where
  "NewShortenerService pg rd url =
     \<lparr>pgRepo = pg, redisRepo = rd, baseURL = url, maxRetries = 3, clickWorkers_cap = 100\<rparr>"

datatype log_entry = LogDebug string | LogWarn string | LogError string

text \<open>
  What changes while the service runs: the world behind the repositories, the number of
  values in the buffer of the channel \<open>clickWorkers\<close>, the goroutines started by
  \<open>incrementClicksAsync\<close> that have not finished (each with its short code), and the
  messages logged.
\<close>

record 'w runtime =
  world :: 'w
  clickWorkers :: nat
  goroutines :: "string list"
  logs :: "log_entry list"

definition start :: "'w \<Rightarrow> 'w runtime" where
  "start w = \<lparr>world = w, clickWorkers = 0, goroutines = [], logs = []\<rparr>"

text \<open>
  \<open>incrementClicksAsync\<close>: the \<open>select\<close> sends into the channel when its buffer has
  room and starts the goroutine, and takes the \<open>default\<close> branch otherwise.
\<close>

definition incrementClicksAsync :: "'w ShortenerService \<Rightarrow> string \<Rightarrow> 'w runtime \<Rightarrow> 'w runtime" where
  "incrementClicksAsync s shortCode st =
     (if clickWorkers st < clickWorkers_cap s
      then st\<lparr>clickWorkers := clickWorkers st + 1, goroutines := goroutines st @ [shortCode]\<rparr>
      else st\<lparr>logs := logs st @ [LogWarn ''click workers limit reached, skipping increment'']\<rparr>)"

text \<open>
  The body of the goroutine, run to its end for the \<open>k\<close>-th goroutine in flight: it calls
  \<open>IncrementClicksCounter\<close>, logs an error, and returns. Nothing in it, and nothing in
  the package, receives from \<open>clickWorkers\<close>.
\<close>

definition goroutine_finishes :: "'w ShortenerService \<Rightarrow> nat \<Rightarrow> 'w runtime \<Rightarrow> 'w runtime" where
  "goroutine_finishes s k st =
     (if k < length (goroutines st)
      then (case pg_IncrementClicksCounter (pgRepo s) (goroutines st ! k) (world st) of
              (err, w') \<Rightarrow>
                st\<lparr>world := w',
                   goroutines := take k (goroutines st) @ drop (Suc k) (goroutines st),
                   logs := (case err of
                              None \<Rightarrow> logs st
                            | Some e \<Rightarrow> logs st @ [LogWarn ''error incrementing clicks counter in background''])\<rparr>)
      else st)"

text \<open>What can happen to the admission pool: an increment is scheduled, a goroutine ends.\<close>

datatype event = Schedule string | Finish nat

fun step :: "'w ShortenerService \<Rightarrow> event \<Rightarrow> 'w runtime \<Rightarrow> 'w runtime" where
  "step s (Schedule shortCode) st = incrementClicksAsync s shortCode st"
| "step s (Finish k) st = goroutine_finishes s k st"

fun run :: "'w ShortenerService \<Rightarrow> event list \<Rightarrow> 'w runtime \<Rightarrow> 'w runtime" where
  "run s [] st = st"
| "run s (e # es) st = run s es (step s e st)"

definition GetLongURL ::
  "'w ShortenerService \<Rightarrow> string \<Rightarrow> 'w runtime \<Rightarrow> (string + string) \<times> 'w runtime" where
  "GetLongURL s shortCode st =
     (if \<not> IsValidShortCode shortCode then (Inl ''invalid short code format'', st)
      else (case redis_Get (redisRepo s) shortCode (world st) of
              (Inr url, w1) \<Rightarrow>
                (Inr (LongURL url),
                 incrementClicksAsync s shortCode
                   (st\<lparr>world := w1, logs := logs st @ [LogDebug ''cache hit'']\<rparr>))
            | (Inl e, w1) \<Rightarrow>
                (let st1 = st\<lparr>world := w1,
                              logs := logs st @ [LogDebug ''cache miss, querying from Postgres'']\<rparr>
                 in case pg_GetByShortCode (pgRepo s) shortCode w1 of
                      (Inl err, w2) \<Rightarrow>
                        if err = ErrNotFound
                        then (Inl ''short URL not found'', st1\<lparr>world := w2\<rparr>)
                        else (Inl ''error retrieving long URL'',
                              st1\<lparr>world := w2,
                                  logs := logs st1 @ [LogError ''error retrieving URL from the database'']\<rparr>)
                    | (Inr url, w2) \<Rightarrow>
                        (case redis_Set (redisRepo s) shortCode url w2 of
                           (err, w3) \<Rightarrow>
                             (Inr (LongURL url),
                              incrementClicksAsync s shortCode
                                (st1\<lparr>world := w3,
                                     logs := (case err of
                                                None \<Rightarrow> logs st1
                                              | Some e' \<Rightarrow> logs st1 @ [LogWarn ''error caching URL with Redis''])\<rparr>))))))"

definition GetURLStats ::
  "'w ShortenerService \<Rightarrow> string \<Rightarrow> 'w runtime \<Rightarrow> (string + StatsResponse) \<times> 'w runtime" where
  "GetURLStats s shortCode st =
     (if \<not> IsValidShortCode shortCode then (Inl ''invalid short code format'', st)
      else (case pg_GetByShortCode (pgRepo s) shortCode (world st) of
              (Inl err, w1) \<Rightarrow>
                if err = ErrNotFound then (Inl ''short URL not found'', st\<lparr>world := w1\<rparr>)
                else (Inl ''error retrieving URL stats'', st\<lparr>world := w1\<rparr>)
            | (Inr url, w1) \<Rightarrow>
                (Inr \<lparr>stats_ShortCode = ShortCode url, stats_LongURL = LongURL url,
                      stats_Clicks = Clicks url, stats_CreatedAt = CreatedAt url\<rparr>,
                 st\<lparr>world := w1\<rparr>)))"

text \<open>How a call of the service can fail: a panic, or an error returned with its message.\<close>

datatype failure = Panicked panic | Failed string

function createShortURLWithRetries ::
  "go_lib \<Rightarrow> 'w ShortenerService \<Rightarrow> string \<Rightarrow> int \<Rightarrow> int \<Rightarrow> 'w runtime
     \<Rightarrow> (failure + CreateURLResponse) \<times> 'w runtime" where
  "createShortURLWithRetries lib s longURL attempt maxRetries' st =
     (if attempt \<ge> maxRetries'
      then (Inl (Failed ''max retries reached for creating short URL''), st)
      else (let longURL = NormalizeURL lib longURL
            in if \<not> IsValidURL lib longURL then (Inl (Failed (''invalid URL: '' @ longURL)), st)
               else (case pg_GetNextID (pgRepo s) (world st) of
                       (Inl err, w1) \<Rightarrow>
                         (Inl (Failed ''error generating short code''),
                          st\<lparr>world := w1, logs := logs st @ [LogError ''error getting next ID'']\<rparr>)
                     | (Inr id', w1) \<Rightarrow>
                         (case Encode id' of
                            Inl p \<Rightarrow> (Inl (Panicked p), st\<lparr>world := w1\<rparr>)
                          | Inr shortCode \<Rightarrow>
                              (case pg_Create (pgRepo s) id' shortCode longURL w1 of
                                 (Inl err, w2) \<Rightarrow>
                                   if err = ErrAlreadyExists
                                   then createShortURLWithRetries lib s longURL (attempt + 1) maxRetries'
                                          (st\<lparr>world := w2,
                                              logs := logs st @ [LogWarn ''collision detected, retrying'']\<rparr>)
                                   else (Inl (Failed ''error creating short URL''),
                                         st\<lparr>world := w2,
                                            logs := logs st @ [LogError ''error inserting URL into the database'']\<rparr>)
                               | (Inr url, w2) \<Rightarrow>
                                   (case redis_Set (redisRepo s) shortCode url w2 of
                                      (err, w3) \<Rightarrow>
                                        (Inr \<lparr>resp_ShortCode = shortCode,
                                              resp_ShortURL = baseURL s @ ''/'' @ shortCode,
                                              resp_LongURL = longURL\<rparr>,
                                         st\<lparr>world := w3,
                                            logs := (case err of
                                                       None \<Rightarrow> logs st
                                                     | Some e \<Rightarrow> logs st @ [LogWarn ''error caching URL with Redis''])\<rparr>)))))))"
  by pat_completeness auto
termination
  by (relation "measure (\<lambda>(lib, s, longURL, attempt, maxRetries', st). nat (maxRetries' - attempt))")
     auto

declare createShortURLWithRetries.simps [simp del]

definition CreateShortURL ::
  "go_lib \<Rightarrow> 'w ShortenerService \<Rightarrow> string \<Rightarrow> 'w runtime
     \<Rightarrow> (failure + CreateURLResponse) \<times> 'w runtime" where
  "CreateShortURL lib s longURL st = createShortURLWithRetries lib s longURL 0 (maxRetries s) st"

section \<open>The test doubles of the service's tests, and instances for evaluation\<close>

text \<open>
  The mocks of the service's tests with no function field set, over the two counters the
  tests keep: \<open>nextID\<close> of \<open>mockPostgresRepo\<close>, and \<open>attempts\<close> of
  \<open>TestShortenerService_CreateShortURL_Collisions\<close>, whose \<open>createFunc\<close> reports a
  conflict for the first \<open>collisions\<close> calls. The time of creation is left at 0.
\<close>

record mock_world =
  nextID :: int
  attempts :: int

definition mockPostgresRepo :: "int \<Rightarrow> mock_world PostgresRepository" where
  "mockPostgresRepo collisions =
     \<lparr>pg_Create = (\<lambda>id' shortCode longURL w.
          (let w' = w\<lparr>attempts := attempts w + 1\<rparr>
           in if attempts w' \<le> collisions then (Inl ErrAlreadyExists, w')
              else (Inr \<lparr>ID = attempts w', ShortCode = shortCode, LongURL = longURL,
                          CreatedAt = 0, Clicks = 0\<rparr>, w'))),
      pg_GetByShortCode = (\<lambda>shortCode w.
          (Inr \<lparr>ID = 1, ShortCode = shortCode, LongURL = ''https://example.com'',
                 CreatedAt = 0, Clicks = 0\<rparr>, w)),
      pg_IncrementClicksCounter = (\<lambda>shortCode w. (None, w)),
      pg_GetNextID = (\<lambda>w. (let w' = w\<lparr>nextID := nextID w + 1\<rparr> in (Inr (nextID w'), w')))\<rparr>"

definition mockRedisRepo :: "mock_world RedisRepository" where
  "mockRedisRepo =
     \<lparr>redis_Get = (\<lambda>shortCode w. (Inl ErrNotFound, w)),
      redis_Set = (\<lambda>shortCode url w. (None, w)),
      redis_Delete = (\<lambda>shortCode w. (None, w)),
      redis_Exists = (\<lambda>shortCode w. ((False, None), w))\<rparr>"

text \<open>
  A store and a cache kept in memory, with the contracts the service expects of its
  collaborators: a row per short code and a conflict on a second insert of a code; a cache
  that returns what was last set for a code. Reads of the store fail when \<open>store_down\<close>,
  writes of the cache when \<open>cache_down\<close>.
\<close>

record mem_world =
  rows :: "string \<rightharpoonup> URL"
  cache :: "string \<rightharpoonup> URL"
  seq :: int
  store_down :: bool
  cache_down :: bool

definition mem_pg :: "mem_world PostgresRepository" where
  "mem_pg =
     \<lparr>pg_Create = (\<lambda>id' shortCode longURL w.
          (case rows w shortCode of
             Some u \<Rightarrow> (Inl ErrAlreadyExists, w)
           | None \<Rightarrow>
               (let u = \<lparr>ID = id', ShortCode = shortCode, LongURL = longURL,
                         CreatedAt = 0, Clicks = 0\<rparr>
                in (Inr u, w\<lparr>rows := (rows w)(shortCode \<mapsto> u)\<rparr>)))),
      pg_GetByShortCode = (\<lambda>shortCode w.
          (if store_down w then (Inl (Driver (OtherError ''db connection error'')), w)
           else (case rows w shortCode of
                   None \<Rightarrow> (Inl ErrNotFound, w)
                 | Some u \<Rightarrow> (Inr u, w)))),
      pg_IncrementClicksCounter = (\<lambda>shortCode w.
          (case rows w shortCode of
             None \<Rightarrow> (Some ErrNotFound, w)
           | Some u \<Rightarrow> (None, w\<lparr>rows := (rows w)(shortCode \<mapsto> u\<lparr>Clicks := Clicks u + 1\<rparr>)\<rparr>))),
      pg_GetNextID = (\<lambda>w. (Inr (seq w + 1), w\<lparr>seq := seq w + 1\<rparr>))\<rparr>"

definition mem_redis :: "mem_world RedisRepository" where
  "mem_redis =
     \<lparr>redis_Get = (\<lambda>shortCode w.
          (case cache w shortCode of None \<Rightarrow> (Inl ErrNotFound, w) | Some u \<Rightarrow> (Inr u, w))),
      redis_Set = (\<lambda>shortCode url w.
          (if cache_down w then (Some (Driver (OtherError ''connection refused'')), w)
           else (None, w\<lparr>cache := (cache w)(shortCode \<mapsto> url)\<rparr>))),
      redis_Delete = (\<lambda>shortCode w. (None, w\<lparr>cache := (cache w)(shortCode := None)\<rparr>)),
      redis_Exists = (\<lambda>shortCode w. ((cache w shortCode \<noteq> None, None), w))\<rparr>"

text \<open>
  An instance of the library parameters that is enough for plain ASCII URLs: trimming of
  ASCII white space, the host as the text between the scheme and the next slash, and no
  JSON.
\<close>

definition ascii_space :: "char \<Rightarrow> bool" where
  "ascii_space c = (c \<in> set [CHR 0x09, CHR 0x0A, CHR 0x0B, CHR 0x0C, CHR 0x0D, CHR '' ''])"

definition ascii_lib :: go_lib where
  "ascii_lib =
     \<lparr>TrimSpace = (\<lambda>s. rev (dropWhile ascii_space (rev (dropWhile ascii_space s)))),
      url_Parse = (\<lambda>s.
          if HasPrefix s ''https://'' then Some (takeWhile (\<lambda>c. c \<noteq> CHR ''/'') (drop 8 s))
          else if HasPrefix s ''http://'' then Some (takeWhile (\<lambda>c. c \<noteq> CHR ''/'') (drop 7 s))
          else Some []),
      json_Marshal = (\<lambda>url. None),
      json_Unmarshal = (\<lambda>data. None)\<rparr>"

definition example_url :: URL where
  "example_url = \<lparr>ID = 1, ShortCode = ''xyz789'', LongURL = ''https://example.com'',
     CreatedAt = 0, Clicks = 5\<rparr>"

text \<open>A world in which the code \<open>xyz789\<close> is in the store and the cache is empty.\<close>

definition stored_only :: mem_world where
  "stored_only =
     \<lparr>rows = [''xyz789'' \<mapsto> example_url], cache = Map.empty, seq = 1,
      store_down = False, cache_down = False\<rparr>"

text \<open>
  The state of the admission pool that \<open>incrementClicksAsync\<close> keeps: every goroutine in
  flight has its value in the channel, and the channel holds no more than its capacity.
\<close>

definition pool_ok :: "'w ShortenerService \<Rightarrow> 'w runtime \<Rightarrow> bool" where
  "pool_ok s st =
     (length (goroutines st) \<le> clickWorkers st \<and> clickWorkers st \<le> clickWorkers_cap s)"


section \<open>Properties of the codec\<close>

declare encode_digits.simps [simp del] reverse_loop.simps [simp del] spec_digits.simps [simp del]

lemma base_62: "base = 62"
  by (simp add: base_def base62Chars_def)

lemma int64_id: "- (2 ^ 63) \<le> x \<Longrightarrow> x < 2 ^ 63 \<Longrightarrow> int64 x = x"
  by (simp add: int64_def)

subsection \<open>\<open>Encode\<close> returns for one digit only\<close>

lemma length_encode_digits: "length results \<le> length (encode_digits number results)"
proof (induction number results rule: encode_digits.induct)
  case (1 number results)
  show ?case
  proof (cases "number > 0")
    case True
    with 1 show ?thesis by (simp add: encode_digits.simps [of number])
  next
    case False
    then show ?thesis by (simp add: encode_digits.simps [of number])
  qed
qed

lemma encode_digits_two:
  assumes "62 \<le> number"
  shows "2 \<le> length (encode_digits number [])"
proof -
  let ?two = "[] @ [base62Chars ! nat (number mod base)] @ [base62Chars ! nat (number div base mod base)]"
  from assms have pos: "number > 0" and pos': "number div base > 0"
    by (simp_all add: base_62 pos_imp_zdiv_pos_iff)
  have "encode_digits number [] = encode_digits (number div base div base) ?two"
    using pos pos'
    by (simp add: encode_digits.simps [of number] encode_digits.simps [of "number div base"])
  moreover have "length ?two \<le> length (encode_digits (number div base div base) ?two)"
    by (rule length_encode_digits)
  ultimately show ?thesis by simp
qed

text \<open>
  With two digits or more the first pass of the loop swaps the two ends, and the second
  pass reads \<open>runes[len(runes)]\<close>.
\<close>

lemma reverse_loop_panics:
  assumes "2 \<le> length runes"
  shows "reverse_loop runes 0 (int (length runes) - 1) = Inl IndexOutOfRange"
proof -
  let ?j = "int (length runes) - 1"
  let ?runes' = "runes[nat 0 := runes ! nat ?j, nat ?j := runes ! nat 0]"
  from assms have ne: "runes \<noteq> []" and lt: "0 < ?j" "1 < int (length runes)"
    by auto
  have "reverse_loop runes 0 ?j = reverse_loop ?runes' 1 (?j + 1)"
    using ne lt by (simp add: reverse_loop.simps [of runes 0])
  also have "\<dots> = Inl IndexOutOfRange"
    using ne lt by (simp add: reverse_loop.simps [of _ 1])
  finally show ?thesis .
qed

lemma Encode_panics: "62 \<le> number \<Longrightarrow> Encode number = Inl IndexOutOfRange"
  using reverse_loop_panics [OF encode_digits_two [of number]]
  by (simp add: Encode_def Let_def)

lemma Encode_single:
  "0 < number \<Longrightarrow> number < 62 \<Longrightarrow> Encode number = Inr [base62Chars ! nat number]"
  by (simp add: Encode_def Let_def base_62 encode_digits.simps [of number]
      encode_digits.simps [of 0] reverse_loop.simps)

lemma Encode_negative: "number < 0 \<Longrightarrow> Encode number = Inr []"
  by (simp add: Encode_def encode_digits.simps [of number] reverse_loop.simps)

lemma Encode_zero: "Encode 0 = Inr ''0''"
  by (simp add: Encode_def base62Chars_def)

subsection \<open>\<open>Decode\<close> and the positional value\<close>

lemma index_from_notin: "c \<notin> set xs \<Longrightarrow> index_from xs c i = -1"
  by (induction xs arbitrary: i) auto

lemma index_from_in:
  "c \<in> set xs \<Longrightarrow> i \<le> index_from xs c i \<and> index_from xs c i < i + int (length xs)"
proof (induction xs arbitrary: i)
  case Nil
  then show ?case by simp
next
  case (Cons x xs)
  show ?case
  proof (cases "x = c")
    case True
    then show ?thesis by simp
  next
    case False
    with Cons.prems have "c \<in> set xs" by simp
    from Cons.IH [OF this, of "i + 1"] False show ?thesis by simp
  qed
qed

lemma IndexRune_notin: "c \<notin> set base62Chars \<Longrightarrow> IndexRune base62Chars c = -1"
  by (simp add: IndexRune_def index_from_notin)

lemma IndexRune_in:
  "c \<in> set base62Chars \<Longrightarrow> 0 \<le> IndexRune base62Chars c \<and> IndexRune base62Chars c < 62"
  using index_from_in [of c base62Chars 0] base_62 by (simp add: IndexRune_def base_def)

lemma positional_value_nonneg: "set s \<subseteq> set base62Chars \<Longrightarrow> 0 \<le> positional_value s"
  by (induction s) (auto simp: IndexRune_in)

lemma positional_value_bound:
  "set s \<subseteq> set base62Chars \<Longrightarrow> positional_value s < 62 ^ length s"
proof (induction s)
  case Nil
  then show ?case by simp
next
  case (Cons c rest)
  then have idx: "IndexRune base62Chars c \<le> 61"
    and rest: "positional_value rest < 62 ^ length rest"
    using IndexRune_in [of c] by auto
  have "IndexRune base62Chars c * 62 ^ length rest \<le> 61 * 62 ^ length rest"
    using idx by (intro mult_right_mono) auto
  with rest have "IndexRune base62Chars c * 62 ^ length rest + positional_value rest
      < 61 * 62 ^ length rest + 62 ^ length rest"
    by linarith
  then show ?case by simp
qed

lemma positional_value_short:
  assumes "set s \<subseteq> set base62Chars" and "length s \<le> 10"
  shows "positional_value s < 2 ^ 63"
proof -
  have "(62::int) ^ length s \<le> 62 ^ 10"
    using assms(2) by (intro power_increasing) auto
  with positional_value_bound [OF assms(1)] show ?thesis by simp
qed

lemma decode_loop_invalid:
  "\<not> set s \<subseteq> set base62Chars \<Longrightarrow> decode_loop conv number s = -1"
  by (induction s arbitrary: number) (auto simp: Let_def IndexRune_notin)

lemma big_power: "10 < n \<Longrightarrow> (2::int) ^ 63 < 62 ^ n"
proof -
  assume "10 < n"
  then have "(62::int) ^ 11 \<le> 62 ^ n" by (intro power_increasing) auto
  then show ?thesis by simp
qed

text \<open>
  One pass of the loop adds the digit's exact weight when the sum stays below \<open>2 ^ 63\<close>:
  up to the tenth power the factor is exact, and beyond it the digit can only be zero.
\<close>

lemma decode_step:
  assumes idx: "0 \<le> index" "index < 62"
    and acc: "0 \<le> number"
    and rest: "0 \<le> r"
    and bound: "number + (index * 62 ^ n + r) < 2 ^ 63"
  shows "int64 (number + int64 (index * pow_int64 conv n)) = number + index * 62 ^ n"
proof -
  have nn: "0 \<le> index * 62 ^ n" using idx by simp
  have weight: "index * pow_int64 conv n = index * 62 ^ n"
  proof (cases "n \<le> 10")
    case True
    then show ?thesis by (simp add: pow_int64_def base_62)
  next
    case False
    then have "10 < n" by simp
    then have "(2::int) ^ 63 < 62 ^ n" by (rule big_power)
    moreover from bound acc rest have "index * 62 ^ n < 2 ^ 63" by linarith
    ultimately have "index * 62 ^ n < 1 * 62 ^ n" by linarith
    then have "index < 1" by (simp only: mult_less_cancel_right) auto
    with idx have "index = 0" by simp
    then show ?thesis by simp
  qed
  from bound acc rest nn have "int64 (index * 62 ^ n) = index * 62 ^ n"
    by (intro int64_id) linarith+
  moreover from bound acc rest nn
  have "int64 (number + index * 62 ^ n) = number + index * 62 ^ n"
    by (intro int64_id) linarith+
  ultimately show ?thesis by (simp add: weight)
qed

lemma decode_loop_exact:
  "set s \<subseteq> set base62Chars \<Longrightarrow> 0 \<le> number \<Longrightarrow> number + positional_value s < 2 ^ 63 \<Longrightarrow>
   decode_loop conv number s = number + positional_value s"
proof (induction s arbitrary: number)
  case Nil
  then show ?case by simp
next
  case (Cons c rest)
  let ?i = "IndexRune base62Chars c"
  from Cons.prems have c: "c \<in> set base62Chars" and sub: "set rest \<subseteq> set base62Chars"
    by auto
  from IndexRune_in [OF c] have idx: "0 \<le> ?i" "?i < 62" by auto
  have r: "0 \<le> positional_value rest" using sub by (rule positional_value_nonneg)
  from Cons.prems have b: "number + (?i * 62 ^ length rest + positional_value rest) < 2 ^ 63"
    by simp
  have pass: "int64 (number + int64 (?i * pow_int64 conv (length rest)))
      = number + ?i * 62 ^ length rest"
    using idx Cons.prems(2) r b by (rule decode_step)
  have "decode_loop conv (number + ?i * 62 ^ length rest) rest
        = (number + ?i * 62 ^ length rest) + positional_value rest"
    using sub idx Cons.prems(2) b by (intro Cons.IH) (auto simp: add.assoc)
  with idx pass show ?case by (simp add: Let_def)
qed

lemma Decode_exact:
  "set s \<subseteq> set base62Chars \<Longrightarrow> positional_value s < 2 ^ 63 \<Longrightarrow>
   Decode conv s = positional_value s"
  using decode_loop_exact [of s 0 conv] by (simp add: Decode_def)

subsection \<open>One digit: the codec works\<close>

lemma index_from_nth:
  "distinct xs \<Longrightarrow> k < length xs \<Longrightarrow> index_from xs (xs ! k) i = i + int k"
proof (induction xs arbitrary: k i)
  case Nil
  then show ?case by simp
next
  case (Cons x xs)
  show ?case
  proof (cases k)
    case 0
    then show ?thesis by simp
  next
    case (Suc k')
    with Cons.prems have "xs ! k' \<in> set xs" and "x \<notin> set xs" by auto
    then have "x \<noteq> xs ! k'" by blast
    with Suc Cons.prems Cons.IH [of k' "i + 1"] show ?thesis by simp
  qed
qed

lemma distinct_base62Chars: "distinct base62Chars"
  by code_simp

lemma IndexRune_nth: "k < 62 \<Longrightarrow> IndexRune base62Chars (base62Chars ! k) = int k"
  using index_from_nth [OF distinct_base62Chars, of k 0] base_62
  by (simp add: IndexRune_def base_def)

lemma Decode_single: "k < 62 \<Longrightarrow> Decode conv [base62Chars ! k] = int k"
  by (simp add: Decode_def Let_def IndexRune_nth pow_int64_def int64_id)

lemma round_trip_single:
  assumes "0 \<le> num" and "num < 62"
  shows "round_trip conv num = Inr num"
proof (cases "num = 0")
  case True
  have "Decode conv ''0'' = 0"
    using Decode_single [of 0 conv] by (simp add: base62Chars_def)
  with True show ?thesis by (simp add: round_trip_def Encode_zero)
next
  case False
  with assms have "0 < num" by simp
  with assms Decode_single [of "nat num" conv] show ?thesis
    by (simp add: round_trip_def Encode_single)
qed

lemma Encode_agrees_single:
  assumes "n < 62"
  shows "Encode (int n) = Inr (spec_encode n)"
proof (cases "n = 0")
  case True
  then show ?thesis by (simp add: Encode_zero spec_encode_def)
next
  case False
  with assms have "spec_digits n = [base62Chars ! n]"
    by (simp add: spec_digits.simps [of n] spec_digits.simps [of 0])
  with False assms show ?thesis by (simp add: Encode_single spec_encode_def)
qed

subsection \<open>The claims on the codec\<close>

text \<open>
  Claim C1: for every non-negative 64-bit integer \<open>n\<close>, decoding the encoding of \<open>n\<close>
  returns \<open>n\<close>. The code does not do this: at \<open>n = 62\<close>, the first number of two
  digits, \<open>Encode\<close> panics in its reversal loop and the round trip ends there. (By
  \<open>Encode_panics\<close> the same happens at every \<open>n \<ge> 62\<close>; by \<open>round_trip_single\<close> the round
  trip is right below 62.)
\<close>

theorem round_trip_62_panics: "round_trip conv_amd64 62 = Inl IndexOutOfRange"
  by (simp add: round_trip_def Encode_panics)

text \<open>
  Claim C2: \<open>Encode n\<close> is the base-62 positional representation of \<open>n\<close>, most significant
  digit first, and \<open>Encode 0\<close> is \<open>0\<close>. The code does not do this: the representation of
  62 is \<open>10\<close> and \<open>Encode 62\<close> panics. (By \<open>Encode_agrees_single\<close> the two agree below 62.)
\<close>

theorem Encode_62_is_not_10: "Encode 62 = Inl IndexOutOfRange \<and> spec_encode 62 = ''10''"
  by (simp add: Encode_panics spec_encode_def spec_digits.simps [of 62]
      spec_digits.simps [of "Suc 0"] spec_digits.simps [of 0] base62Chars_def)

text \<open>
  Eleven symbols reach beyond \<open>int64\<close>: the value of eleven \<open>z\<close> is \<open>62 ^ 11 - 1\<close>, and
  \<open>Decode\<close> returns a negative number for it.
\<close>

theorem Decode_eleven_z_negative:
  "set ''zzzzzzzzzzz'' \<subseteq> set base62Chars
   \<and> positional_value ''zzzzzzzzzzz'' = 52036560683837093887
   \<and> Decode conv_amd64 ''zzzzzzzzzzz'' = - 3303671537291560961"
  by code_simp

text \<open>
  Claim C5, as amended: \<open>Decode\<close> returns -1 for every string with a byte outside the
  alphabet; for a string of alphabet symbols whose positional value is below \<open>2 ^ 63\<close> it
  returns that value, which is not negative; and every string of at most 10 alphabet
  symbols is such a string.
\<close>

theorem Decode_invalid_or_exact:
  "(\<not> set encoded \<subseteq> set base62Chars \<longrightarrow> Decode conv encoded = - 1)
   \<and> (set encoded \<subseteq> set base62Chars \<and> positional_value encoded < 2 ^ 63 \<longrightarrow>
        Decode conv encoded = positional_value encoded \<and> 0 \<le> Decode conv encoded)
   \<and> (set encoded \<subseteq> set base62Chars \<and> length encoded \<le> 10 \<longrightarrow>
        positional_value encoded < 2 ^ 63)"
proof -
  have "\<not> set encoded \<subseteq> set base62Chars \<longrightarrow> Decode conv encoded = - 1"
    by (simp add: decode_loop_invalid Decode_def)
  moreover have "set encoded \<subseteq> set base62Chars \<and> positional_value encoded < 2 ^ 63 \<longrightarrow>
        Decode conv encoded = positional_value encoded \<and> 0 \<le> Decode conv encoded"
    using Decode_exact [of encoded conv] positional_value_nonneg [of encoded] by auto
  moreover have "set encoded \<subseteq> set base62Chars \<and> length encoded \<le> 10 \<longrightarrow>
        positional_value encoded < 2 ^ 63"
    using positional_value_short [of encoded] by blast
  ultimately show ?thesis by blast
qed

theorem Decode_invalid_or_exact_witness:
  "Decode conv_amd64 ''a@b'' = - 1 \<and> Decode conv_amd64 ''G8'' = positional_value ''G8''
   \<and> positional_value ''G8'' = 1000 \<and> positional_value ''zzzzzzzzzz'' < 2 ^ 63"
proof -
  have bad: "\<not> set ''a@b'' \<subseteq> set base62Chars" by code_simp
  have good: "set ''G8'' \<subseteq> set base62Chars \<and> positional_value ''G8'' < 2 ^ 63" by code_simp
  have short: "set ''zzzzzzzzzz'' \<subseteq> set base62Chars \<and> length ''zzzzzzzzzz'' \<le> 10" by code_simp
  have val: "positional_value ''G8'' = 1000" by code_simp
  from bad Decode_invalid_or_exact [of "''a@b''" conv_amd64]
  have "Decode conv_amd64 ''a@b'' = - 1" by blast
  moreover from good Decode_invalid_or_exact [of "''G8''" conv_amd64]
  have "Decode conv_amd64 ''G8'' = positional_value ''G8''" by blast
  moreover from short Decode_invalid_or_exact [of "''zzzzzzzzzz''" conv_amd64]
  have "positional_value ''zzzzzzzzzz'' < 2 ^ 63" by blast
  ultimately show ?thesis using val by blast
qed

text \<open>
  The string \<open>LygHa16AHYF\<close> is made of alphabet symbols and has the value \<open>2 ^ 64 - 1\<close>:
  \<open>Decode\<close> returns -1 for it. And \<open>Encode\<close> of a negative number is the empty string.
\<close>

theorem Decode_minus_one_of_alphabet_string:
  "set ''LygHa16AHYF'' \<subseteq> set base62Chars \<and> Decode conv_amd64 ''LygHa16AHYF'' = - 1
   \<and> Encode (- 1) = Inr ''''"
  by code_simp

text \<open>
  Claim C9, as amended: \<open>Decode\<close> of the empty string is 0, as \<open>Decode\<close> of \<open>0\<close> is; the
  empty string is not a valid short code and is not \<open>Encode\<close> of any non-negative number;
  and \<open>Decode\<close> does not return -1 for a string of alphabet symbols with a value below
  \<open>2 ^ 63\<close>, so that among the strings of at most 10 bytes -1 is returned only for those
  with a byte outside the alphabet.
\<close>

theorem Decode_empty_is_zero:
  "Decode conv '''' = 0 \<and> Decode conv ''0'' = 0 \<and> \<not> IsValidShortCode ''''
   \<and> (0 \<le> number \<longrightarrow> Encode number \<noteq> Inr '''')
   \<and> (set encoded \<subseteq> set base62Chars \<and> positional_value encoded < 2 ^ 63 \<longrightarrow> Decode conv encoded \<noteq> - 1)
   \<and> (length encoded \<le> 10 \<and> Decode conv encoded = - 1 \<longrightarrow> \<not> set encoded \<subseteq> set base62Chars)"
proof -
  have "set ''0'' \<subseteq> set base62Chars \<and> positional_value ''0'' < 2 ^ 63 \<and> positional_value ''0'' = 0"
    by code_simp
  then have zero: "Decode conv ''0'' = 0"
    using Decode_exact [of "''0''" conv] by simp
  have enc: "0 \<le> number \<longrightarrow> Encode number \<noteq> Inr ''''"
  proof
    assume "0 \<le> number"
    then consider "number = 0" | "0 < number" "number < 62" | "62 \<le> number" by linarith
    then show "Encode number \<noteq> Inr ''''"
      by cases (simp_all add: Encode_zero Encode_single Encode_panics)
  qed
  have exact: "set encoded \<subseteq> set base62Chars \<and> positional_value encoded < 2 ^ 63 \<longrightarrow> Decode conv encoded \<noteq> - 1"
    using positional_value_nonneg [of encoded] by (auto simp: Decode_exact)
  have short: "length encoded \<le> 10 \<and> Decode conv encoded = - 1 \<longrightarrow> \<not> set encoded \<subseteq> set base62Chars"
    using exact positional_value_short [of encoded] by blast
  show ?thesis
    using zero enc exact short by (simp add: Decode_def IsValidShortCode_def)
qed

theorem Decode_empty_is_zero_witness:
  "Decode conv_amd64 '''' = 0 \<and> Decode conv_amd64 ''0'' = 0 \<and> Encode 5 \<noteq> Inr ''''
   \<and> Decode conv_amd64 ''G8'' \<noteq> - 1 \<and> \<not> set ''a@b'' \<subseteq> set base62Chars"
proof -
  have five: "(0::int) \<le> 5" by simp
  have good: "set ''G8'' \<subseteq> set base62Chars \<and> positional_value ''G8'' < 2 ^ 63" by code_simp
  have bad: "length ''a@b'' \<le> 10 \<and> Decode conv_amd64 ''a@b'' = - 1" by code_simp
  from five good Decode_empty_is_zero [of conv_amd64 5 "''G8''"]
  have "Decode conv_amd64 '''' = 0 \<and> Decode conv_amd64 ''0'' = 0 \<and> Encode 5 \<noteq> Inr ''''
     \<and> Decode conv_amd64 ''G8'' \<noteq> - 1"
    by blast
  moreover from bad Decode_empty_is_zero [of conv_amd64 5 "''a@b''"]
  have "\<not> set ''a@b'' \<subseteq> set base62Chars" by blast
  ultimately show ?thesis by blast
qed

section \<open>Properties of the validators\<close>

lemma alnum_base62Chars: "list_all alnum base62Chars"
  by code_simp

lemma ranges_base62Chars:
  "list_all (\<lambda>n. char_of n \<in> set base62Chars) ([48..<58] @ [65..<91] @ [97..<123])"
  by code_simp

lemma alnum_iff: "alnum c \<longleftrightarrow> c \<in> set base62Chars"
proof
  assume "alnum c"
  then have "(of_char c :: nat) \<in> {48..<58} \<union> {65..<91} \<union> {97..<123}"
    by (auto simp: alnum_def Let_def)
  then have "(of_char c :: nat) \<in> set ([48..<58] @ [65..<91] @ [97..<123])"
    by (simp only: set_append set_upt Un_assoc)
  with ranges_base62Chars have "char_of (of_char c :: nat) \<in> set base62Chars"
    unfolding list_all_iff by blast
  then show "c \<in> set base62Chars" by simp
next
  assume "c \<in> set base62Chars"
  with alnum_base62Chars show "alnum c"
    unfolding list_all_iff by blast
qed

text \<open>
  Claim C8: \<open>IsValidShortCode\<close> accepts exactly the strings of length 1 to 10 all of whose
  characters are in \<open>[0-9A-Za-z]\<close>, the alphabet of the codec.
\<close>

theorem IsValidShortCode_iff:
  "IsValidShortCode shortCode \<longleftrightarrow>
     1 \<le> length shortCode \<and> length shortCode \<le> 10 \<and> set shortCode \<subseteq> set base62Chars"
  by (cases shortCode)
     (auto simp: IsValidShortCode_def validShortCodeRegex_MatchString_def
        MinShortCodeLength_def MaxShortCodeLength_def list_all_iff alnum_iff)

theorem IsValidShortCode_iff_witness:
  "IsValidShortCode ''abc123'' \<and> IsValidShortCode ''a'' \<and> IsValidShortCode ''abcdefghij''
   \<and> \<not> IsValidShortCode '''' \<and> \<not> IsValidShortCode ''abcdefghijk''"
proof -
  have "1 \<le> length ''abc123'' \<and> length ''abc123'' \<le> 10 \<and> set ''abc123'' \<subseteq> set base62Chars"
    and "1 \<le> length ''a'' \<and> length ''a'' \<le> 10 \<and> set ''a'' \<subseteq> set base62Chars"
    and "1 \<le> length ''abcdefghij'' \<and> length ''abcdefghij'' \<le> 10 \<and> set ''abcdefghij'' \<subseteq> set base62Chars"
    and "\<not> 1 \<le> length ''''" and "\<not> length ''abcdefghijk'' \<le> 10"
    by code_simp+
  then show ?thesis
    using IsValidShortCode_iff [of "''abc123''"] IsValidShortCode_iff [of "''a''"]
      IsValidShortCode_iff [of "''abcdefghij''"] IsValidShortCode_iff [of "''''"]
      IsValidShortCode_iff [of "''abcdefghijk''"]
    by blast
qed

text \<open>
  The rejected strings of the claim: a space, \<open>@\<close>, \<open>_\<close>, \<open>-\<close>, \<open>.\<close>, white space at
  either end, a newline inside, and the two bytes of a letter beyond ASCII.
\<close>

lemma rejected_examples:
  "\<not> IsValidShortCode ''abc 123'' \<and> \<not> IsValidShortCode ''abc@123'' \<and> \<not> IsValidShortCode ''abc_123''
   \<and> \<not> IsValidShortCode ''abc-123'' \<and> \<not> IsValidShortCode ''abc.123''
   \<and> \<not> IsValidShortCode '' abc'' \<and> \<not> IsValidShortCode ''abc '' \<and> \<not> IsValidShortCode ''abc\<newline>def''
   \<and> \<not> IsValidShortCode [CHR 0xC3, CHR 0xA9]"
  by code_simp

section \<open>Properties of the repositories\<close>

text \<open>
  Claim C10: \<open>Create\<close>, \<open>GetByShortCode\<close> and \<open>IncrementClicksCounter\<close> of
  \<open>PostgresRepo\<close> and \<open>Set\<close>, \<open>Get\<close>, \<open>Delete\<close> and \<open>Exists\<close> of \<open>RedisRepo\<close> return
  \<open>ErrInvalidShortCode\<close> for a short code that is not valid, and leave the database and
  the cache as they were, whatever the pool and the client would have done with a statement
  or a command.
\<close>

theorem repositories_reject_invalid_code:
  assumes "\<not> IsValidShortCode shortCode"
  shows "PostgresRepo_Create pool now shortCode longURL db = (Inl ErrInvalidShortCode, db)
    \<and> PostgresRepo_GetByShortCode pool shortCode db = (Inl ErrInvalidShortCode, db)
    \<and> PostgresRepo_IncrementClicksCounter pool shortCode db = (Some ErrInvalidShortCode, db)
    \<and> RedisRepo_Set lib r shortCode url c = (Some ErrInvalidShortCode, c)
    \<and> RedisRepo_Get lib r shortCode c = (Inl ErrInvalidShortCode, c)
    \<and> RedisRepo_Delete r shortCode c = (Some ErrInvalidShortCode, c)
    \<and> RedisRepo_Exists r shortCode c = ((False, Some ErrInvalidShortCode), c)"
  using assms
  by (simp add: PostgresRepo_Create_def PostgresRepo_GetByShortCode_def
      PostgresRepo_IncrementClicksCounter_def RedisRepo_Set_def RedisRepo_Get_def
      RedisRepo_Delete_def RedisRepo_Exists_def)

theorem repositories_reject_invalid_code_witness:
  "PostgresRepo_Create counting_pool 0 ''bad code'' ''https://example.com'' 0
     = (Inl ErrInvalidShortCode, 0)
   \<and> PostgresRepo_GetByShortCode counting_pool ''bad code'' 0 = (Inl ErrInvalidShortCode, 0)
   \<and> PostgresRepo_IncrementClicksCounter counting_pool ''bad code'' 0
     = (Some ErrInvalidShortCode, 0)
   \<and> RedisRepo_Set ascii_lib counting_redis ''bad code'' example_url 0
     = (Some ErrInvalidShortCode, 0)
   \<and> RedisRepo_Get ascii_lib counting_redis ''bad code'' 0 = (Inl ErrInvalidShortCode, 0)
   \<and> RedisRepo_Delete counting_redis ''bad code'' 0 = (Some ErrInvalidShortCode, 0)
   \<and> RedisRepo_Exists counting_redis ''bad code'' 0 = ((False, Some ErrInvalidShortCode), 0)
   \<and> snd (PostgresRepo_GetByShortCode counting_pool ''good'' 0) = 1
   \<and> snd (RedisRepo_Get ascii_lib counting_redis ''good'' 0) = 1"
proof -
  have bad: "\<not> IsValidShortCode ''bad code''" by code_simp
  have good: "IsValidShortCode ''good''" by code_simp
  have touched: "snd (PostgresRepo_GetByShortCode counting_pool ''good'' 0) = 1
    \<and> snd (RedisRepo_Get ascii_lib counting_redis ''good'' 0) = 1"
    by (simp add: good PostgresRepo_GetByShortCode_def RedisRepo_Get_def counting_pool_def
        counting_redis_def)
  from repositories_reject_invalid_code [OF bad, of counting_pool 0 "''https://example.com''" 0
      ascii_lib counting_redis example_url 0] touched
  show ?thesis by (elim conjE) (intro conjI)
qed

section \<open>Properties of the service\<close>

text \<open>
  Claim C6: an input that fails validation gets the validation error, and the state of the
  service, with the world of the store and the cache in it, is what it was: this holds
  for every implementation of the two repositories, so none of their functions is called.
\<close>

theorem validation_touches_nothing:
  "(\<not> IsValidURL lib (NormalizeURL lib longURL) \<longrightarrow>
      CreateShortURL lib (NewShortenerService pg rd url) longURL st
        = (Inl (Failed (''invalid URL: '' @ NormalizeURL lib longURL)), st))
   \<and> (\<not> IsValidShortCode shortCode \<longrightarrow>
        GetLongURL s shortCode st = (Inl ''invalid short code format'', st)
        \<and> GetURLStats s shortCode st = (Inl ''invalid short code format'', st))"
  by (simp add: CreateShortURL_def NewShortenerService_def GetLongURL_def GetURLStats_def
      createShortURLWithRetries.simps [of _ _ _ 0])

theorem validation_touches_nothing_witness:
  "CreateShortURL ascii_lib (NewShortenerService (mockPostgresRepo 0) mockRedisRepo ''http://localhost:8080'')
       '''' (start \<lparr>nextID = 0, attempts = 0\<rparr>)
     = (Inl (Failed ''invalid URL: https://''), start \<lparr>nextID = 0, attempts = 0\<rparr>)
   \<and> GetLongURL (NewShortenerService (mockPostgresRepo 0) mockRedisRepo ''http://localhost:8080'')
       ''invalid@code!'' (start \<lparr>nextID = 0, attempts = 0\<rparr>)
     = (Inl ''invalid short code format'', start \<lparr>nextID = 0, attempts = 0\<rparr>)
   \<and> GetURLStats (NewShortenerService (mockPostgresRepo 0) mockRedisRepo ''http://localhost:8080'')
       ''invalid@code!'' (start \<lparr>nextID = 0, attempts = 0\<rparr>)
     = (Inl ''invalid short code format'', start \<lparr>nextID = 0, attempts = 0\<rparr>)"
proof -
  have n: "NormalizeURL ascii_lib '''' = ''https://''"
    by (simp add: NormalizeURL_def ascii_lib_def HasPrefix_def)
  have u: "\<not> IsValidURL ascii_lib (NormalizeURL ascii_lib '''')"
    unfolding n by (simp add: IsValidURL_def ascii_lib_def HasPrefix_def)
  have c: "\<not> IsValidShortCode ''invalid@code!''" by code_simp
  from u c
    validation_touches_nothing [of ascii_lib "''''" "mockPostgresRepo 0" mockRedisRepo
      "''http://localhost:8080''" "start \<lparr>nextID = 0, attempts = 0\<rparr>" "''invalid@code!''"
      "NewShortenerService (mockPostgresRepo 0) mockRedisRepo ''http://localhost:8080''"]
  show ?thesis unfolding n by simp
qed

text \<open>
  Claim C7: for a valid short code that the cache does not have, \<open>GetLongURL\<close> returns the
  long URL of the record the store returns and sets that record in the cache, whether or
  not the cache accepts it (a refusal adds a warning to the log); when the store has no
  such code the error is \<open>short URL not found\<close>, and for every other error of the store it
  is the different \<open>error retrieving long URL\<close>. A later lookup that finds the record in
  the cache returns its long URL from the cache alone.
\<close>

theorem GetLongURL_cache_miss:
  assumes valid: "IsValidShortCode shortCode"
    and miss: "redis_Get (redisRepo s) shortCode (world st) = (Inl e, w1)"
  shows "(pg_GetByShortCode (pgRepo s) shortCode w1 = (Inr u, w2)
          \<and> redis_Set (redisRepo s) shortCode u w2 = (err, w3) \<longrightarrow>
            GetLongURL s shortCode st =
              (Inr (LongURL u),
               incrementClicksAsync s shortCode
                 (st\<lparr>world := w3,
                     logs := logs st @ [LogDebug ''cache miss, querying from Postgres'']
                       @ (case err of None \<Rightarrow> []
                          | Some e' \<Rightarrow> [LogWarn ''error caching URL with Redis''])\<rparr>)))
    \<and> (pg_GetByShortCode (pgRepo s) shortCode w1 = (Inl ErrNotFound, w2) \<longrightarrow>
          fst (GetLongURL s shortCode st) = Inl ''short URL not found'')
    \<and> (pg_GetByShortCode (pgRepo s) shortCode w1 = (Inl err', w2) \<and> err' \<noteq> ErrNotFound \<longrightarrow>
          fst (GetLongURL s shortCode st) = Inl ''error retrieving long URL'')
    \<and> ''short URL not found'' \<noteq> ''error retrieving long URL''
    \<and> (redis_Get (redisRepo s) shortCode (world st') = (Inr u', w') \<longrightarrow>
          GetLongURL s shortCode st' =
            (Inr (LongURL u'),
             incrementClicksAsync s shortCode
               (st'\<lparr>world := w', logs := logs st' @ [LogDebug ''cache hit'']\<rparr>)))"
  using valid miss
  by (auto simp: GetLongURL_def Let_def split: option.splits)

theorem GetLongURL_cache_miss_witness:
  "fst (GetLongURL (NewShortenerService mem_pg mem_redis ''http://localhost:8080'') ''xyz789''
         (start stored_only)) = Inr ''https://example.com''
   \<and> cache (world (snd (GetLongURL (NewShortenerService mem_pg mem_redis ''http://localhost:8080'')
         ''xyz789'' (start stored_only)))) ''xyz789'' = Some example_url
   \<and> GetLongURL (NewShortenerService mem_pg mem_redis ''http://localhost:8080'') ''xyz789''
         (snd (GetLongURL (NewShortenerService mem_pg mem_redis ''http://localhost:8080'')
           ''xyz789'' (start stored_only)))
       = (Inr ''https://example.com'',
          \<lparr>world = stored_only\<lparr>cache := [''xyz789'' \<mapsto> example_url]\<rparr>, clickWorkers = 2,
            goroutines = [''xyz789'', ''xyz789''],
            logs = [LogDebug ''cache miss, querying from Postgres'', LogDebug ''cache hit'']\<rparr>)
   \<and> fst (GetLongURL (NewShortenerService mem_pg mem_redis ''http://localhost:8080'') ''xyz789''
         (start (stored_only\<lparr>cache_down := True\<rparr>))) = Inr ''https://example.com''
   \<and> fst (GetLongURL (NewShortenerService mem_pg mem_redis ''http://localhost:8080'') ''nothere''
         (start stored_only)) = Inl ''short URL not found''
   \<and> fst (GetLongURL (NewShortenerService mem_pg mem_redis ''http://localhost:8080'') ''xyz789''
         (start (stored_only\<lparr>store_down := True\<rparr>))) = Inl ''error retrieving long URL''"
proof -
  let ?s = "NewShortenerService mem_pg mem_redis ''http://localhost:8080''"
  let ?up = "stored_only\<lparr>cache := [''xyz789'' \<mapsto> example_url]\<rparr>"
  let ?cd = "stored_only\<lparr>cache_down := True\<rparr>"
  let ?sd = "stored_only\<lparr>store_down := True\<rparr>"
  let ?st1 = "\<lparr>world = ?up, clickWorkers = 1, goroutines = [''xyz789''],
    logs = [LogDebug ''cache miss, querying from Postgres'']\<rparr>"
  have v: "IsValidShortCode ''xyz789''" and v': "IsValidShortCode ''nothere''" by code_simp+
  have miss: "redis_Get (redisRepo ?s) ''xyz789'' (world (start stored_only))
      = (Inl ErrNotFound, stored_only)"
    by (simp add: NewShortenerService_def mem_redis_def start_def stored_only_def)
  have found: "pg_GetByShortCode (pgRepo ?s) ''xyz789'' stored_only = (Inr example_url, stored_only)
      \<and> redis_Set (redisRepo ?s) ''xyz789'' example_url stored_only = (None, ?up)"
    by (simp add: NewShortenerService_def mem_pg_def mem_redis_def stored_only_def)
  have hit: "redis_Get (redisRepo ?s) ''xyz789'' (world ?st1) = (Inr example_url, ?up)"
    by (simp add: NewShortenerService_def mem_redis_def stored_only_def)
  have miss_cd: "redis_Get (redisRepo ?s) ''xyz789'' (world (start ?cd)) = (Inl ErrNotFound, ?cd)"
    by (simp add: NewShortenerService_def mem_redis_def start_def stored_only_def)
  have found_cd: "pg_GetByShortCode (pgRepo ?s) ''xyz789'' ?cd = (Inr example_url, ?cd)
      \<and> redis_Set (redisRepo ?s) ''xyz789'' example_url ?cd
          = (Some (Driver (OtherError ''connection refused'')), ?cd)"
    by (simp add: NewShortenerService_def mem_pg_def mem_redis_def stored_only_def)
  have miss_n: "redis_Get (redisRepo ?s) ''nothere'' (world (start stored_only))
      = (Inl ErrNotFound, stored_only)"
    by (simp add: NewShortenerService_def mem_redis_def start_def stored_only_def)
  have none: "pg_GetByShortCode (pgRepo ?s) ''nothere'' stored_only = (Inl ErrNotFound, stored_only)"
    by (simp add: NewShortenerService_def mem_pg_def stored_only_def)
  have miss_sd: "redis_Get (redisRepo ?s) ''xyz789'' (world (start ?sd)) = (Inl ErrNotFound, ?sd)"
    by (simp add: NewShortenerService_def mem_redis_def start_def stored_only_def)
  have down: "pg_GetByShortCode (pgRepo ?s) ''xyz789'' ?sd
      = (Inl (Driver (OtherError ''db connection error'')), ?sd)
      \<and> Driver (OtherError ''db connection error'') \<noteq> ErrNotFound"
    by (simp add: NewShortenerService_def mem_pg_def stored_only_def)
  from GetLongURL_cache_miss [OF v miss, of example_url stored_only None ?up] found
  have "GetLongURL ?s ''xyz789'' (start stored_only) =
      (Inr (LongURL example_url),
       incrementClicksAsync ?s ''xyz789''
         ((start stored_only)\<lparr>world := ?up,
            logs := logs (start stored_only) @ [LogDebug ''cache miss, querying from Postgres'']
              @ []\<rparr>))"
    by simp
  then have 1: "GetLongURL ?s ''xyz789'' (start stored_only) = (Inr ''https://example.com'', ?st1)"
    by (simp add: example_url_def incrementClicksAsync_def NewShortenerService_def start_def)
  from GetLongURL_cache_miss [OF v miss, where st' = ?st1 and u' = example_url and w' = ?up] hit
  have "GetLongURL ?s ''xyz789'' ?st1 =
      (Inr (LongURL example_url),
       incrementClicksAsync ?s ''xyz789''
         (?st1\<lparr>world := ?up, logs := logs ?st1 @ [LogDebug ''cache hit'']\<rparr>))"
    by simp
  then have 2: "GetLongURL ?s ''xyz789'' ?st1 =
      (Inr ''https://example.com'',
       \<lparr>world = ?up, clickWorkers = 2, goroutines = [''xyz789'', ''xyz789''],
         logs = [LogDebug ''cache miss, querying from Postgres'', LogDebug ''cache hit'']\<rparr>)"
    by (simp add: example_url_def incrementClicksAsync_def NewShortenerService_def)
  from GetLongURL_cache_miss [OF v miss_cd, of example_url ?cd
      "Some (Driver (OtherError ''connection refused''))" ?cd] found_cd
  have 3: "fst (GetLongURL ?s ''xyz789'' (start ?cd)) = Inr ''https://example.com''"
    by (simp add: example_url_def)
  from GetLongURL_cache_miss [OF v' miss_n, where ?w2.0 = stored_only] none
  have 4: "fst (GetLongURL ?s ''nothere'' (start stored_only)) = Inl ''short URL not found''"
    by simp
  from GetLongURL_cache_miss [OF v miss_sd, where ?w2.0 = ?sd
      and err' = "Driver (OtherError ''db connection error'')"] down
  have 5: "fst (GetLongURL ?s ''xyz789'' (start ?sd)) = Inl ''error retrieving long URL''"
    by simp
  have c: "cache (world ?st1) ''xyz789'' = Some example_url" by simp
  from 1 2 3 4 5 c show ?thesis by simp
qed

subsection \<open>Creation and its retries\<close>

lemma attempt_conflict:
  assumes "attempt < maxRetries'"
    and "IsValidURL lib (NormalizeURL lib longURL)"
    and "pg_GetNextID (pgRepo s) (world st) = (Inr id', w1)"
    and "Encode id' = Inr shortCode"
    and "pg_Create (pgRepo s) id' shortCode (NormalizeURL lib longURL) w1 = (Inl ErrAlreadyExists, w2)"
  shows "createShortURLWithRetries lib s longURL attempt maxRetries' st =
         createShortURLWithRetries lib s (NormalizeURL lib longURL) (attempt + 1) maxRetries'
           (st\<lparr>world := w2, logs := logs st @ [LogWarn ''collision detected, retrying'']\<rparr>)"
  using assms
  by (subst createShortURLWithRetries.simps) (simp add: Let_def)

lemma attempt_success:
  assumes "attempt < maxRetries'"
    and "IsValidURL lib (NormalizeURL lib longURL)"
    and "pg_GetNextID (pgRepo s) (world st) = (Inr id', w1)"
    and "Encode id' = Inr shortCode"
    and "pg_Create (pgRepo s) id' shortCode (NormalizeURL lib longURL) w1 = (Inr u, w2)"
    and "redis_Set (redisRepo s) shortCode u w2 = (err, w3)"
  shows "createShortURLWithRetries lib s longURL attempt maxRetries' st =
         (Inr \<lparr>resp_ShortCode = shortCode, resp_ShortURL = baseURL s @ ''/'' @ shortCode,
               resp_LongURL = NormalizeURL lib longURL\<rparr>,
          st\<lparr>world := w3,
             logs := (case err of None \<Rightarrow> logs st
                      | Some e \<Rightarrow> logs st @ [LogWarn ''error caching URL with Redis''])\<rparr>)"
  using assms
  by (subst createShortURLWithRetries.simps) (simp add: Let_def)

lemma attempts_exhausted:
  "maxRetries' \<le> attempt \<Longrightarrow>
   createShortURLWithRetries lib s longURL attempt maxRetries' st =
     (Inl (Failed ''max retries reached for creating short URL''), st)"
  by (subst createShortURLWithRetries.simps) simp

lemma attempt_panics:
  assumes "attempt < maxRetries'"
    and "IsValidURL lib (NormalizeURL lib longURL)"
    and "pg_GetNextID (pgRepo s) (world st) = (Inr id', w1)"
    and "Encode id' = Inl p"
  shows "createShortURLWithRetries lib s longURL attempt maxRetries' st =
         (Inl (Panicked p), st\<lparr>world := w1\<rparr>)"
  using assms
  by (subst createShortURLWithRetries.simps) (simp add: Let_def)

text \<open>
  The retries when every attempt reaches \<open>Create\<close>. An attempt is the identifier that
  \<open>GetNextID\<close> returned, the code that \<open>Encode\<close> returned for it, and the call of
  \<open>Create\<close> with both. When \<open>Create\<close> reports \<open>ErrAlreadyExists\<close> on the first attempt
  and succeeds on the second, the result is the response with the second code, and no
  error; when it reports \<open>ErrAlreadyExists\<close> on three attempts in a row, the result is
  the error \<open>max retries reached\<close>, and the world is the one the third \<open>Create\<close> left: no
  repository is called after it. The normalised URL is taken to be unchanged by a second
  normalisation, as it is with \<open>strings.TrimSpace\<close>. By \<open>Encode_panics\<close> this covers the
  identifiers below 62 only.
\<close>

lemma CreateShortURL_retries:
  assumes valid: "IsValidURL lib (NormalizeURL lib longURL)"
    and stable: "NormalizeURL lib (NormalizeURL lib longURL) = NormalizeURL lib longURL"
    and id1: "pg_GetNextID pg (world st) = (Inr id1, w1)"
    and code1: "Encode id1 = Inr code1"
    and conflict1: "pg_Create pg id1 code1 (NormalizeURL lib longURL) w1 = (Inl ErrAlreadyExists, w2)"
    and id2: "pg_GetNextID pg w2 = (Inr id2, w3)"
    and code2: "Encode id2 = Inr code2"
  shows "(pg_Create pg id2 code2 (NormalizeURL lib longURL) w3 = (Inr u, w4)
          \<and> redis_Set rd code2 u w4 = (err, w5) \<longrightarrow>
            CreateShortURL lib (NewShortenerService pg rd url) longURL st =
              (Inr \<lparr>resp_ShortCode = code2, resp_ShortURL = url @ ''/'' @ code2,
                    resp_LongURL = NormalizeURL lib longURL\<rparr>,
               st\<lparr>world := w5,
                  logs := logs st @ [LogWarn ''collision detected, retrying'']
                    @ (case err of None \<Rightarrow> []
                       | Some e \<Rightarrow> [LogWarn ''error caching URL with Redis''])\<rparr>))
    \<and> (pg_Create pg id2 code2 (NormalizeURL lib longURL) w3 = (Inl ErrAlreadyExists, w4)
        \<and> pg_GetNextID pg w4 = (Inr id3, w5) \<and> Encode id3 = Inr code3
        \<and> pg_Create pg id3 code3 (NormalizeURL lib longURL) w5 = (Inl ErrAlreadyExists, w6) \<longrightarrow>
            CreateShortURL lib (NewShortenerService pg rd url) longURL st =
              (Inl (Failed ''max retries reached for creating short URL''),
               st\<lparr>world := w6,
                  logs := logs st @ [LogWarn ''collision detected, retrying'',
                    LogWarn ''collision detected, retrying'', LogWarn ''collision detected, retrying'']\<rparr>))"
proof -
  let ?s = "NewShortenerService pg rd url"
  let ?n = "NormalizeURL lib longURL"
  let ?warn = "LogWarn ''collision detected, retrying''"
  let ?st2 = "st\<lparr>world := w2, logs := logs st @ [?warn]\<rparr>"
  have pg: "pgRepo ?s = pg" and rd: "redisRepo ?s = rd" and b: "baseURL ?s = url"
    and m: "maxRetries ?s = 3"
    by (simp_all add: NewShortenerService_def)
  have valid': "IsValidURL lib (NormalizeURL lib ?n)" using valid stable by simp
  have first: "CreateShortURL lib ?s longURL st = createShortURLWithRetries lib ?s ?n 1 3 ?st2"
    unfolding CreateShortURL_def m
    using attempt_conflict [of 0 3 lib longURL ?s st id1 w1 code1 w2] valid id1 code1 conflict1
    by (simp add: pg)
  have success: "createShortURLWithRetries lib ?s ?n 1 3 ?st2 =
      (Inr \<lparr>resp_ShortCode = code2, resp_ShortURL = url @ ''/'' @ code2, resp_LongURL = ?n\<rparr>,
       st\<lparr>world := w5,
          logs := logs st @ [?warn]
            @ (case err of None \<Rightarrow> [] | Some e \<Rightarrow> [LogWarn ''error caching URL with Redis''])\<rparr>)"
    if "pg_Create pg id2 code2 ?n w3 = (Inr u, w4)" and "redis_Set rd code2 u w4 = (err, w5)"
    using attempt_success [of 1 3 lib ?n ?s ?st2 id2 w3 code2 u w4 err w5] valid' id2 code2 that
    by (simp add: pg rd b stable split: option.splits)
  have failure: "createShortURLWithRetries lib ?s ?n 1 3 ?st2 =
      (Inl (Failed ''max retries reached for creating short URL''),
       st\<lparr>world := w6, logs := logs st @ [?warn, ?warn, ?warn]\<rparr>)"
    if c2: "pg_Create pg id2 code2 ?n w3 = (Inl ErrAlreadyExists, w4)"
      and id3: "pg_GetNextID pg w4 = (Inr id3, w5)" and code3: "Encode id3 = Inr code3"
      and c3: "pg_Create pg id3 code3 ?n w5 = (Inl ErrAlreadyExists, w6)"
  proof -
    let ?st4 = "?st2\<lparr>world := w4, logs := logs ?st2 @ [?warn]\<rparr>"
    let ?st6 = "?st4\<lparr>world := w6, logs := logs ?st4 @ [?warn]\<rparr>"
    have "createShortURLWithRetries lib ?s ?n 1 3 ?st2 = createShortURLWithRetries lib ?s ?n 2 3 ?st4"
      using attempt_conflict [of 1 3 lib ?n ?s ?st2 id2 w3 code2 w4] valid' id2 code2 c2
      by (simp add: pg stable)
    also have "\<dots> = createShortURLWithRetries lib ?s ?n 3 3 ?st6"
      using attempt_conflict [of 2 3 lib ?n ?s ?st4 id3 w5 code3 w6] valid' id3 code3 c3
      by (simp add: pg stable)
    also have "\<dots> = (Inl (Failed ''max retries reached for creating short URL''), ?st6)"
      by (rule attempts_exhausted) simp
    finally show ?thesis by simp
  qed
  show ?thesis
    using first success failure by simp
qed

lemma CreateShortURL_retries_on_mocks:
  "CreateShortURL ascii_lib (NewShortenerService (mockPostgresRepo 1) mockRedisRepo ''http://localhost:8080'')
       ''https://example.com'' (start \<lparr>nextID = 0, attempts = 0\<rparr>)
     = (Inr \<lparr>resp_ShortCode = ''2'', resp_ShortURL = ''http://localhost:8080/2'',
              resp_LongURL = ''https://example.com''\<rparr>,
        \<lparr>world = \<lparr>nextID = 2, attempts = 2\<rparr>, clickWorkers = 0, goroutines = [],
          logs = [LogWarn ''collision detected, retrying'']\<rparr>)
   \<and> CreateShortURL ascii_lib (NewShortenerService (mockPostgresRepo 3) mockRedisRepo ''http://localhost:8080'')
       ''https://example.com'' (start \<lparr>nextID = 0, attempts = 0\<rparr>)
     = (Inl (Failed ''max retries reached for creating short URL''),
        \<lparr>world = \<lparr>nextID = 3, attempts = 3\<rparr>, clickWorkers = 0, goroutines = [],
          logs = [LogWarn ''collision detected, retrying'', LogWarn ''collision detected, retrying'',
                  LogWarn ''collision detected, retrying'']\<rparr>)"
proof -
  let ?l = "''https://example.com''"
  let ?st = "start \<lparr>nextID = 0, attempts = 0\<rparr>"
  let ?w = "\<lambda>n a. \<lparr>nextID = n, attempts = a\<rparr>"
  have n: "NormalizeURL ascii_lib ?l = ?l"
    by (simp add: NormalizeURL_def ascii_lib_def HasPrefix_def ascii_space_def)
  have valid: "IsValidURL ascii_lib (NormalizeURL ascii_lib ?l)"
    unfolding n by (simp add: IsValidURL_def ascii_lib_def HasPrefix_def)
  have stable: "NormalizeURL ascii_lib (NormalizeURL ascii_lib ?l) = NormalizeURL ascii_lib ?l"
    by (simp add: n)
  have e1: "Encode 1 = Inr ''1''" and e2: "Encode 2 = Inr ''2''" and e3: "Encode 3 = Inr ''3''"
    by (simp_all add: Encode_single base62Chars_def)
  have id1: "pg_GetNextID (mockPostgresRepo k) (world ?st) = (Inr 1, ?w 1 0)" for k
    by (simp add: mockPostgresRepo_def start_def Let_def)
  have id2: "pg_GetNextID (mockPostgresRepo k) (?w 1 1) = (Inr 2, ?w 2 1)" for k
    by (simp add: mockPostgresRepo_def Let_def)
  have id3: "pg_GetNextID (mockPostgresRepo k) (?w 2 2) = (Inr 3, ?w 3 2)" for k
    by (simp add: mockPostgresRepo_def Let_def)
  have c1: "pg_Create (mockPostgresRepo k) 1 ''1'' (NormalizeURL ascii_lib ?l) (?w 1 0)
      = (Inl ErrAlreadyExists, ?w 1 1)" if "1 \<le> k" for k
    using that by (simp add: mockPostgresRepo_def Let_def)
  have c2_ok: "pg_Create (mockPostgresRepo 1) 2 ''2'' (NormalizeURL ascii_lib ?l) (?w 2 1)
      = (Inr \<lparr>ID = 2, ShortCode = ''2'', LongURL = ?l, CreatedAt = 0, Clicks = 0\<rparr>, ?w 2 2)"
    by (simp add: mockPostgresRepo_def Let_def n)
  have set_ok: "redis_Set mockRedisRepo ''2''
      \<lparr>ID = 2, ShortCode = ''2'', LongURL = ?l, CreatedAt = 0, Clicks = 0\<rparr> (?w 2 2) = (None, ?w 2 2)"
    by (simp add: mockRedisRepo_def)
  have c2: "pg_Create (mockPostgresRepo 3) 2 ''2'' (NormalizeURL ascii_lib ?l) (?w 2 1)
      = (Inl ErrAlreadyExists, ?w 2 2)"
    by (simp add: mockPostgresRepo_def Let_def)
  have c3: "pg_Create (mockPostgresRepo 3) 3 ''3'' (NormalizeURL ascii_lib ?l) (?w 3 2)
      = (Inl ErrAlreadyExists, ?w 3 3)"
    by (simp add: mockPostgresRepo_def Let_def)
  have one: "CreateShortURL ascii_lib
      (NewShortenerService (mockPostgresRepo 1) mockRedisRepo ''http://localhost:8080'') ?l ?st
     = (Inr \<lparr>resp_ShortCode = ''2'', resp_ShortURL = ''http://localhost:8080'' @ ''/'' @ ''2'',
              resp_LongURL = NormalizeURL ascii_lib ?l\<rparr>,
        ?st\<lparr>world := ?w 2 2,
            logs := logs ?st @ [LogWarn ''collision detected, retrying''] @ []\<rparr>)"
    using CreateShortURL_retries [OF valid stable id1 [of 1] e1 c1 [of 1] id2 [of 1] e2,
        where rd = mockRedisRepo and err = None and ?w4.0 = "?w 2 2" and ?w5.0 = "?w 2 2"
          and u = "\<lparr>ID = 2, ShortCode = ''2'', LongURL = ?l, CreatedAt = 0, Clicks = 0\<rparr>"
          and url = "''http://localhost:8080''"]
      c2_ok set_ok
    by simp
  have three: "CreateShortURL ascii_lib
      (NewShortenerService (mockPostgresRepo 3) mockRedisRepo ''http://localhost:8080'') ?l ?st
     = (Inl (Failed ''max retries reached for creating short URL''),
        ?st\<lparr>world := ?w 3 3,
            logs := logs ?st @ [LogWarn ''collision detected, retrying'',
              LogWarn ''collision detected, retrying'', LogWarn ''collision detected, retrying'']\<rparr>)"
    using CreateShortURL_retries [OF valid stable id1 [of 3] e1 c1 [of 3] id2 [of 3] e2,
        where rd = mockRedisRepo and ?w4.0 = "?w 2 2" and ?w5.0 = "?w 3 2" and ?w6.0 = "?w 3 3"
          and ?id3.0 = 3 and ?code3.0 = "''3''" and url = "''http://localhost:8080''"]
      c2 id3 e3 c3
    by simp
  from one three show ?thesis by (simp add: start_def n)
qed

text \<open>
  Claim C4: when \<open>Create\<close> reports \<open>ErrAlreadyExists\<close> on the first attempt and succeeds
  on the second, \<open>CreateShortURL\<close> returns the second attempt's code and no error. The code
  does not do this for every identifier: with the store of
  \<open>TestShortenerService_CreateShortURL_Collisions\<close> for one collision and the sequence at
  60, the first attempt gets the identifier 61, the code \<open>z\<close> and the conflict; the second
  gets the identifier 62, and \<open>Encode\<close> panics before \<open>Create\<close> is called.
\<close>

theorem CreateShortURL_panics_on_second_attempt:
  "CreateShortURL ascii_lib
     (NewShortenerService (mockPostgresRepo 1) mockRedisRepo ''http://localhost:8080'')
     ''https://example.com'' (start \<lparr>nextID = 60, attempts = 0\<rparr>)
   = (Inl (Panicked IndexOutOfRange),
      \<lparr>world = \<lparr>nextID = 62, attempts = 1\<rparr>, clickWorkers = 0, goroutines = [],
        logs = [LogWarn ''collision detected, retrying'']\<rparr>)"
proof -
  let ?l = "''https://example.com''"
  let ?s = "NewShortenerService (mockPostgresRepo 1) mockRedisRepo ''http://localhost:8080''"
  let ?st = "start \<lparr>nextID = 60, attempts = 0\<rparr>"
  let ?st2 = "?st\<lparr>world := \<lparr>nextID = 61, attempts = 1\<rparr>,
    logs := logs ?st @ [LogWarn ''collision detected, retrying'']\<rparr>"
  have n: "NormalizeURL ascii_lib ?l = ?l"
    by (simp add: NormalizeURL_def ascii_lib_def HasPrefix_def ascii_space_def)
  have valid: "IsValidURL ascii_lib (NormalizeURL ascii_lib ?l)"
    unfolding n by (simp add: IsValidURL_def ascii_lib_def HasPrefix_def)
  have valid': "IsValidURL ascii_lib (NormalizeURL ascii_lib (NormalizeURL ascii_lib ?l))"
    using valid by (simp add: n)
  have e61: "Encode 61 = Inr ''z''"
    by (simp add: Encode_single base62Chars_def)
  have e62: "Encode 62 = Inl IndexOutOfRange"
    by (simp add: Encode_panics)
  have id1: "pg_GetNextID (pgRepo ?s) (world ?st) = (Inr 61, \<lparr>nextID = 61, attempts = 0\<rparr>)"
    by (simp add: NewShortenerService_def mockPostgresRepo_def start_def Let_def)
  have c1: "pg_Create (pgRepo ?s) 61 ''z'' (NormalizeURL ascii_lib ?l) \<lparr>nextID = 61, attempts = 0\<rparr>
      = (Inl ErrAlreadyExists, \<lparr>nextID = 61, attempts = 1\<rparr>)"
    by (simp add: NewShortenerService_def mockPostgresRepo_def Let_def)
  have id2: "pg_GetNextID (pgRepo ?s) (world ?st2) = (Inr 62, \<lparr>nextID = 62, attempts = 1\<rparr>)"
    by (simp add: NewShortenerService_def mockPostgresRepo_def Let_def)
  have "CreateShortURL ascii_lib ?s ?l ?st = createShortURLWithRetries ascii_lib ?s ?l 0 3 ?st"
    by (simp add: CreateShortURL_def NewShortenerService_def)
  also have "\<dots> = createShortURLWithRetries ascii_lib ?s (NormalizeURL ascii_lib ?l) (0 + 1) 3 ?st2"
    using valid id1 e61 c1 by (intro attempt_conflict) simp_all
  also have "\<dots> = (Inl (Panicked IndexOutOfRange), ?st2\<lparr>world := \<lparr>nextID = 62, attempts = 1\<rparr>\<rparr>)"
    using valid' id2 e62 by (intro attempt_panics) simp_all
  finally show ?thesis by (simp add: start_def)
qed

subsection \<open>The admission pool of the click increments\<close>

lemma goroutines_finish:
  "goroutines (goroutine_finishes s k st) =
     (if k < length (goroutines st) then take k (goroutines st) @ drop (Suc k) (goroutines st)
      else goroutines st)"
  by (simp add: goroutine_finishes_def split: prod.splits)

lemma clickWorkers_finish: "clickWorkers (goroutine_finishes s k st) = clickWorkers st"
  by (simp add: goroutine_finishes_def split: prod.splits)

lemma pool_ok_step: "pool_ok s st \<Longrightarrow> pool_ok s (step s e st)"
proof (cases e)
  case (Schedule c)
  assume "pool_ok s st"
  with Schedule show ?thesis by (auto simp: pool_ok_def incrementClicksAsync_def)
next
  case (Finish k)
  assume "pool_ok s st"
  with Finish show ?thesis
    by (auto simp: pool_ok_def goroutines_finish clickWorkers_finish)
qed

lemma pool_ok_run: "pool_ok s st \<Longrightarrow> pool_ok s (run s es st)"
  by (induction es arbitrary: st) (auto simp: pool_ok_step)

lemma pool_never_above_100:
  "length (goroutines (run (NewShortenerService pg rd url) es (start w))) \<le> 100"
proof -
  have "pool_ok (NewShortenerService pg rd url) (start w)"
    by (simp add: pool_ok_def start_def)
  then have "pool_ok (NewShortenerService pg rd url) (run (NewShortenerService pg rd url) es (start w))"
    by (rule pool_ok_run)
  then show ?thesis by (simp add: pool_ok_def NewShortenerService_def)
qed

lemma clickWorkers_never_decreases: "clickWorkers st \<le> clickWorkers (run s es st)"
proof (induction es arbitrary: st)
  case Nil
  then show ?case by simp
next
  case (Cons e es)
  have "clickWorkers st \<le> clickWorkers (step s e st)"
    by (cases e) (simp_all add: incrementClicksAsync_def clickWorkers_finish)
  with Cons [of "step s e st"] show ?case by simp
qed

lemma one_round:
  assumes "goroutines st = []" and "clickWorkers st < clickWorkers_cap s"
  shows "goroutines (run s [Schedule c, Finish 0] st) = []
       \<and> clickWorkers (run s [Schedule c, Finish 0] st) = clickWorkers st + 1"
  using assms
  by (simp add: incrementClicksAsync_def goroutines_finish clickWorkers_finish)

lemma rounds:
  "goroutines st = [] \<Longrightarrow> clickWorkers st + k \<le> clickWorkers_cap s \<Longrightarrow>
   goroutines (run s (concat (replicate k [Schedule c, Finish 0])) st) = []
   \<and> clickWorkers (run s (concat (replicate k [Schedule c, Finish 0])) st) = clickWorkers st + k"
proof (induction k arbitrary: st)
  case 0
  then show ?case by simp
next
  case (Suc k)
  let ?st' = "run s [Schedule c, Finish 0] st"
  from Suc.prems have lt: "clickWorkers st < clickWorkers_cap s" by simp
  from one_round [OF Suc.prems(1) lt, of c]
  have g: "goroutines ?st' = []" and w: "clickWorkers ?st' = clickWorkers st + 1" by simp_all
  from Suc.prems w have "clickWorkers ?st' + k \<le> clickWorkers_cap s" by simp
  from Suc.IH [OF g this] w show ?case by simp
qed

text \<open>
  Claim C3: the pool never holds more than 100 increments in flight (that is
  \<open>pool_never_above_100\<close>), an increment is dropped exactly when 100 are in flight, and
  capacity comes back when admitted increments have ended. The code does not do the last
  two: the channel is never received from (\<open>clickWorkers_never_decreases\<close>), so after 100
  increments that were each admitted and have each ended, none is in flight, the channel is
  full, and the next increment is dropped with a warning.
\<close>

theorem pool_full_with_nothing_in_flight:
  "(let s = NewShortenerService pg rd url;
        st = run s (concat (replicate 100 [Schedule c, Finish 0])) (start w)
    in goroutines st = [] \<and> clickWorkers st = 100
       \<and> incrementClicksAsync s c st
           = st\<lparr>logs := logs st @ [LogWarn ''click workers limit reached, skipping increment'']\<rparr>)"
proof -
  let ?s = "NewShortenerService pg rd url"
  have "goroutines (start w) = []" and "clickWorkers (start w) + 100 \<le> clickWorkers_cap ?s"
    by (simp_all add: start_def NewShortenerService_def)
  from rounds [OF this, of c]
  have g: "goroutines (run ?s (concat (replicate 100 [Schedule c, Finish 0])) (start w)) = []"
    and n: "clickWorkers (run ?s (concat (replicate 100 [Schedule c, Finish 0])) (start w)) = 100"
    by (simp_all add: start_def)
  have cap: "clickWorkers_cap ?s = 100" by (simp add: NewShortenerService_def)
  show ?thesis
    unfolding Let_def using g n cap by (simp add: incrementClicksAsync_def)
qed

end
